theory Spec2Isabelle
  imports Complex_Main
begin

section \<open>Strings\<close>

text \<open>
  Python strings are modelled as lists of characters with code points below 256.
  \<open>py_isspace\<close> is \<^verbatim>\<open>str.isspace\<close> on one such character: the characters that
  \<^verbatim>\<open>str.strip()\<close> removes.
\<close>

definition py_isspace :: "char \<Rightarrow> bool" where
  "py_isspace c =
     (let n = (of_char c :: nat)
      in (9 \<le> n \<and> n \<le> 13) \<or> (28 \<le> n \<and> n \<le> 32) \<or> n = 133 \<or> n = 160)"

definition py_strip :: "string \<Rightarrow> string" where
  "py_strip s = rev (dropWhile py_isspace (rev (dropWhile py_isspace s)))"

text \<open>\<^verbatim>\<open>s.startswith(p)\<close> and \<^verbatim>\<open>p in s\<close> on strings.\<close>

fun py_startswith :: "string \<Rightarrow> string \<Rightarrow> bool" where
  "py_startswith s [] = True"
| "py_startswith [] (p # ps) = False"
| "py_startswith (c # cs) (p # ps) = (c = p \<and> py_startswith cs ps)"

fun py_in :: "string \<Rightarrow> string \<Rightarrow> bool" where
  "py_in p [] = py_startswith [] p"
| "py_in p (c # cs) = (py_startswith (c # cs) p \<or> py_in p cs)"

text \<open>Lower-casing of one character, as used by a case-insensitive match against ASCII letters.\<close>

definition py_lower :: "char \<Rightarrow> char" where
  "py_lower c =
     (let n = (of_char c :: nat)
      in if 65 \<le> n \<and> n \<le> 90 then char_of (n + 32) else c)"

text \<open>
  \<^verbatim>\<open>Series.str.contains(pat, case=False, na=False)\<close> on one string cell, for a pattern
  of ASCII letters only (the source's only such pattern is \<^verbatim>\<open>"total"\<close>).
\<close>

definition contains_nocase :: "string \<Rightarrow> string \<Rightarrow> bool" where
  "contains_nocase pat s = py_in (map py_lower pat) (map py_lower s)"

section \<open>Words, header positions and rows\<close>

text \<open>
  A word as \<^verbatim>\<open>page.extract_words()\<close> returns it; only the keys the source reads.
  A coordinate is a double, modelled as the real number it stands for (NaN and the
  infinities are left out).
\<close>

record word =
  word_text :: string
  word_x0 :: real
  word_x1 :: real
  word_top :: real

text \<open>
  Comparisons and \<^verbatim>\<open>abs\<close> are exact on doubles. The subtraction and the addition of
  lines 39 and 58 round their results: they are the parameters \<open>fsub\<close> and \<open>fadd\<close> of
  the definitions below, and no theorem about all pages assumes anything of them. To
  evaluate a page with integer coordinates, what is used is that the two operations are
  exact on integers of magnitude up to \<open>2 ^ 52\<close>, as the double operations are (the exact
  result is an integer of magnitude at most \<open>2 ^ 53\<close>, which is a double).
\<close>

definition small_int :: "real \<Rightarrow> bool" where
  "small_int a = (a \<in> \<int> \<and> \<bar>a\<bar> \<le> 2 ^ 52)"

definition exact_on_small_ints :: "(real \<Rightarrow> real \<Rightarrow> real) \<Rightarrow> (real \<Rightarrow> real \<Rightarrow> real) \<Rightarrow> bool" where
  "exact_on_small_ints fsub fadd =
     (\<forall>a b. small_int a \<longrightarrow> small_int b \<longrightarrow> fsub a b = a - b \<and> fadd a b = a + b)"

definition small_page :: "word list \<Rightarrow> bool" where
  "small_page words =
     (\<forall>w \<in> set words. small_int (word_x0 w) \<and> small_int (word_x1 w) \<and> small_int (word_top w))"

definition TARGET_HEADERS :: "string list" where
  "TARGET_HEADERS =
     [''S.S'', ''POL'', ''POD'', ''OPR'', ''2210'', ''4510'', ''45G0'', ''45G1'',
      ''4310'', ''4363'', ''4532'', ''E'', ''F'']"

text \<open>Lines 36 to 41: the header words, widened by 5 and sorted (stably) by left edge.\<close>

definition header_positions ::
  "(real \<Rightarrow> real \<Rightarrow> real) \<Rightarrow> (real \<Rightarrow> real \<Rightarrow> real) \<Rightarrow> word list
     \<Rightarrow> (string \<times> real \<times> real) list" where
  "header_positions fsub fadd words =
     sort_key (\<lambda>x. fst (snd x))
       (map (\<lambda>w. (word_text w, fsub (word_x0 w) 5, fadd (word_x1 w) 5))
          (filter (\<lambda>w. word_text w \<in> set TARGET_HEADERS) words))"

definition column_positions ::
  "(real \<Rightarrow> real \<Rightarrow> real) \<Rightarrow> (real \<Rightarrow> real \<Rightarrow> real) \<Rightarrow> word list
     \<Rightarrow> (real \<times> real) list" where
  "column_positions fsub fadd words = map snd (header_positions fsub fadd words)"

definition column_names ::
  "(real \<Rightarrow> real \<Rightarrow> real) \<Rightarrow> (real \<Rightarrow> real \<Rightarrow> real) \<Rightarrow> word list \<Rightarrow> string list" where
  "column_names fsub fadd words = map fst (header_positions fsub fadd words)"

text \<open>Line 51: \<^verbatim>\<open>sorted(set(word['top'] for word in words))\<close>.\<close>

definition row_positions :: "word list \<Rightarrow> real list" where
  "row_positions words = sort (remdups (map word_top words))"

text \<open>Lines 59 to 63: the first column whose band holds the word's left edge.\<close>

fun matched_column :: "(real \<times> real) list \<Rightarrow> real \<Rightarrow> nat \<Rightarrow> nat option" where
  "matched_column [] x col_idx = None"
| "matched_column ((col_x0, col_x1) # cols) x col_idx =
     (if col_x0 \<le> x \<and> x \<le> col_x1 then Some col_idx
      else matched_column cols x (Suc col_idx))"

text \<open>Lines 59 to 66: a word that passed the test of line 58 is put into its column.\<close>

definition place_word :: "(real \<times> real) list \<Rightarrow> string list \<Rightarrow> word \<Rightarrow> string list" where
  "place_word cols row_data w =
     (case matched_column cols (word_x0 w) 0 of
        None \<Rightarrow> row_data
      | Some j \<Rightarrow>
          if j < length row_data
          then row_data[j := row_data ! j @ py_strip (CHR '' '' # word_text w)]
          else row_data)"

text \<open>Lines 58 to 66: the body of the loop over the words, for the anchor \<open>y\<close>.\<close>

definition add_word ::
  "(real \<Rightarrow> real \<Rightarrow> real) \<Rightarrow> (real \<times> real) list \<Rightarrow> real \<Rightarrow> string list \<Rightarrow> word
     \<Rightarrow> string list" where
  "add_word fsub cols y row_data w =
     (if \<bar>fsub (word_top w) y\<bar> < 5 then place_word cols row_data w else row_data)"

text \<open>Lines 55 to 66: the row of one anchor.\<close>

definition build_row ::
  "(real \<Rightarrow> real \<Rightarrow> real) \<Rightarrow> (real \<Rightarrow> real \<Rightarrow> real) \<Rightarrow> word list \<Rightarrow> real
     \<Rightarrow> string list" where
  "build_row fsub fadd words y =
     foldl (add_word fsub (column_positions fsub fadd words) y)
       (replicate (length (column_names fsub fadd words)) []) words"

text \<open>Lines 54 to 69: the candidate rows of a page.\<close>

definition table_data ::
  "(real \<Rightarrow> real \<Rightarrow> real) \<Rightarrow> (real \<Rightarrow> real \<Rightarrow> real) \<Rightarrow> word list
     \<Rightarrow> string list list" where
  "table_data fsub fadd words =
     filter (\<lambda>row_data. length row_data = length (column_names fsub fadd words)
                         \<and> (\<exists>c \<in> set row_data. c \<noteq> []))
       (map (build_row fsub fadd words) (row_positions words))"

section \<open>The page's table\<close>

datatype exn =
    AttributeError
  | KeyError
  | TypeError
  | InvalidIndexError
  | ReError
  | HTTPException nat

text \<open>A DataFrame built from rows of strings: its column labels and its rows.\<close>

record table =
  columns :: "string list"
  data :: "string list list"

text \<open>
  Line 74, \<^verbatim>\<open>dropna(how='all')\<close>: every cell is a \<^verbatim>\<open>str\<close>, the empty string
  included, so no cell is null and no row is dropped.
\<close>

definition dropna_all :: "string list list \<Rightarrow> string list list" where
  "dropna_all rows = rows"

text \<open>Line 75: the rows with no cell that contains "total", whatever the case.\<close>

definition drop_total :: "string list list \<Rightarrow> string list list" where
  "drop_total rows = filter (\<lambda>r. \<not> (\<exists>c \<in> set r. contains_nocase ''total'' c)) rows"

text \<open>Line 76: the rows with some cell that differs from its column's label.\<close>

definition drop_header_rows :: "string list \<Rightarrow> string list list \<Rightarrow> string list list" where
  "drop_header_rows names rows = filter (\<lambda>r. \<exists>(c, h) \<in> set (zip r names). c \<noteq> h) rows"

text \<open>
  Lines 78 and 79. With one column labelled OPR, \<^verbatim>\<open>df["OPR"]\<close> is that column; with
  several, it is a DataFrame, which has no \<^verbatim>\<open>str\<close> attribute.
\<close>

definition label_index :: "string \<Rightarrow> string list \<Rightarrow> nat" where
  "label_index l names = length (takeWhile (\<lambda>h. h \<noteq> l) names)"

definition filter_opr :: "string list \<Rightarrow> string list list \<Rightarrow> exn + string list list" where
  "filter_opr names rows =
     (if ''OPR'' \<in> set names then
        (if count_list names ''OPR'' = 1
         then Inr (filter (\<lambda>r. py_strip (r ! label_index ''OPR'' names) \<noteq> []) rows)
         else Inl AttributeError)
      else Inr rows)"

text \<open>Lines 30 to 82: one page; \<open>None\<close> where the source appends nothing.\<close>

definition process_page ::
  "(real \<Rightarrow> real \<Rightarrow> real) \<Rightarrow> (real \<Rightarrow> real \<Rightarrow> real) \<Rightarrow> word list
     \<Rightarrow> exn + table option" where
  "process_page fsub fadd words =
     (if words = [] then Inr None
      else if header_positions fsub fadd words = [] then Inr None
      else if table_data fsub fadd words = [] then Inr None
      else
        (case filter_opr (column_names fsub fadd words)
                (drop_header_rows (column_names fsub fadd words)
                   (drop_total (dropna_all (table_data fsub fadd words)))) of
           Inl e \<Rightarrow> Inl e
         | Inr rows \<Rightarrow>
             if rows = [] then Inr None
             else Inr (Some \<lparr>columns = column_names fsub fadd words, data = rows\<rparr>)))"

text \<open>
  Lines 24 to 88. The PDF is given as the words of each of its pages; an exception anywhere
  becomes \<^verbatim>\<open>HTTPException(status_code=500)\<close> (the detail text is not modelled).
\<close>

fun extract_pages ::
  "(real \<Rightarrow> real \<Rightarrow> real) \<Rightarrow> (real \<Rightarrow> real \<Rightarrow> real) \<Rightarrow> word list list \<Rightarrow> table list
     \<Rightarrow> exn + table list" where
  "extract_pages fsub fadd [] extracted_tables = Inr extracted_tables"
| "extract_pages fsub fadd (words # pages) extracted_tables =
     (case process_page fsub fadd words of
        Inl e \<Rightarrow> Inl e
      | Inr None \<Rightarrow> extract_pages fsub fadd pages extracted_tables
      | Inr (Some df) \<Rightarrow> extract_pages fsub fadd pages (extracted_tables @ [df]))"

definition process_pdf ::
  "(real \<Rightarrow> real \<Rightarrow> real) \<Rightarrow> (real \<Rightarrow> real \<Rightarrow> real) \<Rightarrow> word list list
     \<Rightarrow> exn + table list" where
  "process_pdf fsub fadd pages =
     (case extract_pages fsub fadd pages [] of
        Inl e \<Rightarrow> Inl (HTTPException 500)
      | Inr extracted_tables \<Rightarrow> Inr extracted_tables)"

section \<open>Section requests and the combined datasets\<close>

text \<open>
  The value \<^verbatim>\<open>json.loads(sections)\<close> returns. A dict is the list of its items, in
  insertion order, with distinct keys.
\<close>

datatype json =
    JNull
  | JBool bool
  | JNum real
  | JStr string
  | JArr "json list"
  | JObj "(string \<times> json) list"

fun bindE :: "exn + 'a \<Rightarrow> ('a \<Rightarrow> exn + 'b) \<Rightarrow> exn + 'b" where
  "bindE (Inl e) f = Inl e"
| "bindE (Inr x) f = f x"

text \<open>\<^verbatim>\<open>data[key]\<close> and \<^verbatim>\<open>sections_data.items()\<close> on a JSON value.\<close>

fun subscript :: "json \<Rightarrow> string \<Rightarrow> exn + json" where
  "subscript (JObj kvs) key = (case map_of kvs key of None \<Rightarrow> Inl KeyError | Some v \<Rightarrow> Inr v)"
| "subscript JNull key = Inl TypeError"
| "subscript (JBool b) key = Inl TypeError"
| "subscript (JNum x) key = Inl TypeError"
| "subscript (JStr s) key = Inl TypeError"
| "subscript (JArr xs) key = Inl TypeError"

fun dict_items :: "json \<Rightarrow> exn + (string \<times> json) list" where
  "dict_items (JObj kvs) = Inr kvs"
| "dict_items JNull = Inl AttributeError"
| "dict_items (JBool b) = Inl AttributeError"
| "dict_items (JNum x) = Inl AttributeError"
| "dict_items (JStr s) = Inl AttributeError"
| "dict_items (JArr xs) = Inl AttributeError"

text \<open>A combined dataset: a DataFrame whose cells may be null (\<open>None\<close>).\<close>

record frame =
  frame_columns :: "string list"
  frame_data :: "string option list list"

text \<open>\<^verbatim>\<open>pd.DataFrame()\<close> and \<^verbatim>\<open>df.empty\<close>.\<close>

definition empty_frame :: frame where
  "empty_frame = \<lparr>frame_columns = [], frame_data = []\<rparr>"

definition frame_empty :: "frame \<Rightarrow> bool" where
  "frame_empty df = (frame_columns df = [] \<or> frame_data df = [])"

text \<open>
  \<^verbatim>\<open>pd.concat(tables)\<close> on a non-empty list, row-wise with an outer join of the columns.
  Tables with the same labels are stacked as they are. Otherwise the labels are united in
  the order of their first appearance and every table is reindexed to them, a label it
  lacks giving null cells; reindexing a table with a repeated label raises.
\<close>

definition union_labels :: "string list list \<Rightarrow> string list" where
  "union_labels css = rev (remdups (rev (concat css)))"

definition reindex_row :: "string list \<Rightarrow> string list \<Rightarrow> string list \<Rightarrow> string option list" where
  "reindex_row new_columns cols r = map (map_of (zip cols r)) new_columns"

definition pd_concat :: "table list \<Rightarrow> exn + frame" where
  "pd_concat tables =
     (if \<forall>t \<in> set tables. columns t = columns (hd tables) then
        Inr \<lparr>frame_columns = columns (hd tables),
             frame_data = concat (map (\<lambda>t. map (map Some) (data t)) tables)\<rparr>
      else if \<exists>t \<in> set tables. \<not> distinct (columns t) then Inl InvalidIndexError
      else
        Inr \<lparr>frame_columns = union_labels (map columns tables),
             frame_data =
               concat (map (\<lambda>t. map (reindex_row (union_labels (map columns tables)) (columns t))
                                   (data t)) tables)\<rparr>)"

text \<open>Lines 114 and 115: \<^verbatim>\<open>pd.concat(tables) if tables else pd.DataFrame()\<close>.\<close>

definition combined :: "table list \<Rightarrow> exn + frame" where
  "combined tables = (if tables \<noteq> [] then pd_concat tables else Inr empty_frame)"

text \<open>
  \<^verbatim>\<open>df['OPR'].str\<close>: the OPR column of a combined dataset. A missing label raises
  KeyError; a repeated one selects a DataFrame, which has no \<^verbatim>\<open>str\<close> attribute.
\<close>

definition opr_series :: "frame \<Rightarrow> exn + string option list" where
  "opr_series df =
     (if ''OPR'' \<notin> set (frame_columns df) then Inl KeyError
      else if count_list (frame_columns df) ''OPR'' = 1
      then Inr (map (\<lambda>r. r ! label_index ''OPR'' (frame_columns df)) (frame_data df))
      else Inl AttributeError)"

section \<open>Matching by regular expression\<close>

text \<open>
  \<^verbatim>\<open>Series.str.contains(pat, na=False)\<close> is called with the default
  \<^verbatim>\<open>regex=True\<close>: the pattern is compiled by \<^verbatim>\<open>re.compile\<close> and searched in
  every cell. The characters below are the special characters of Python's \<^verbatim>\<open>re\<close>.
\<close>

definition re_special :: "char \<Rightarrow> bool" where
  "re_special c =
     (c \<in> set [CHR ''.'', CHR ''^'', CHR ''$'', CHR ''*'', CHR ''+'', CHR ''?'', CHR ''{'',
                CHR ''}'', CHR ''['', CHR '']'', CHR 0x5C, CHR ''|'', CHR ''('', CHR '')''])"

text \<open>
  A pattern whose only special character is the dot: every other character stands for
  itself, and the dot for any character but a newline. \<open>re_match_here\<close> matches the
  pattern at the start of the string, \<open>re_search\<close> anywhere in it.
\<close>

fun re_match_here :: "string \<Rightarrow> string \<Rightarrow> bool" where
  "re_match_here [] s = True"
| "re_match_here (p # ps) [] = False"
| "re_match_here (p # ps) (c # cs) =
     ((if p = CHR ''.'' then c \<noteq> CHR 0x0A else c = p) \<and> re_match_here ps cs)"

fun re_search :: "string \<Rightarrow> string \<Rightarrow> bool" where
  "re_search pat [] = re_match_here pat []"
| "re_search pat (c # cs) = (re_match_here pat (c # cs) \<or> re_search pat cs)"

text \<open>
  \<^verbatim>\<open>re.compile(pat)\<close>, giving the search function, or \<open>None\<close> where it raises.
  What the engine does with a pattern that uses another special character is the
  parameter \<open>re_other\<close>.
\<close>

definition re_compile :: "(string \<Rightarrow> (string \<Rightarrow> bool) option) \<Rightarrow> string \<Rightarrow> (string \<Rightarrow> bool) option" where
  "re_compile re_other pat =
     (if list_all (\<lambda>c. \<not> re_special c \<or> c = CHR ''.'') pat then Some (re_search pat)
      else re_other pat)"

text \<open>One cell of \<^verbatim>\<open>str.contains(pat, na=False)\<close>: a null cell gives False.\<close>

fun cell_contains :: "(string \<Rightarrow> bool) \<Rightarrow> string option \<Rightarrow> bool" where
  "cell_contains f None = False"
| "cell_contains f (Some s) = f s"

definition str_contains ::
  "(string \<Rightarrow> (string \<Rightarrow> bool) option) \<Rightarrow> json \<Rightarrow> string option list \<Rightarrow> exn + bool list" where
  "str_contains re_other pat series =
     (case pat of
        JStr p \<Rightarrow>
          (case re_compile re_other p of
             None \<Rightarrow> Inl ReError
           | Some f \<Rightarrow> Inr (map (cell_contains f) series))
      | _ \<Rightarrow> Inl TypeError)"

text \<open>
  Lines 118 and 119, with the \<^verbatim>\<open>len\<close> of line 123: the number of rows of a combined
  dataset that match a section number.
\<close>

definition count_matches ::
  "(string \<Rightarrow> (string \<Rightarrow> bool) option) \<Rightarrow> json \<Rightarrow> frame \<Rightarrow> exn + nat" where
  "count_matches re_other section_number df =
     (if \<not> frame_empty df then
        bindE (opr_series df) (\<lambda>series.
        bindE (str_contains re_other section_number series) (\<lambda>mask.
        Inr (length (filter id mask))))
      else Inr 0)"

section \<open>The request\<close>

text \<open>The decimal digits of a natural number, as an f-string prints a \<^verbatim>\<open>len\<close>.\<close>

function format_nat :: "nat \<Rightarrow> string" where
  "format_nat n =
     (if n < 10 then [char_of (48 + n)]
      else format_nat (n div 10) @ [char_of (48 + n mod 10)])"
  by pat_completeness auto
termination
  by (relation "measure id") auto

declare format_nat.simps [simp del]

text \<open>Line 123: the result string of one section.\<close>

definition result_message :: "nat \<Rightarrow> nat \<Rightarrow> string \<Rightarrow> string" where
  "result_message n1 n2 sect =
     ''Found '' @ format_nat n1 @ '' matches in PDF1 and '' @ format_nat n2
       @ '' matches in PDF2 for section '' @ sect"

text \<open>
  Lines 109 to 124: the loop over the section requests. \<open>results\<close> maps a section name
  to its result string (the source wraps the string in a dict with the one key
  \<^verbatim>\<open>"result"\<close>).
\<close>

fun sections_loop ::
  "(string \<Rightarrow> (string \<Rightarrow> bool) option) \<Rightarrow> table list \<Rightarrow> table list \<Rightarrow> (string \<times> json) list
     \<Rightarrow> (string \<rightharpoonup> string) \<Rightarrow> exn + (string \<rightharpoonup> string)" where
  "sections_loop re_other pdf1_tables pdf2_tables [] results = Inr results"
| "sections_loop re_other pdf1_tables pdf2_tables ((sect, d) # rest) results =
     bindE (subscript d ''number'') (\<lambda>section_number.
     bindE (subscript d ''date'') (\<lambda>section_date.
     bindE (combined pdf1_tables) (\<lambda>pdf1_data.
     bindE (combined pdf2_tables) (\<lambda>pdf2_data.
     bindE (count_matches re_other section_number pdf1_data) (\<lambda>n1.
     bindE (count_matches re_other section_number pdf2_data) (\<lambda>n2.
     sections_loop re_other pdf1_tables pdf2_tables rest
       (results(sect \<mapsto> result_message n1 n2 sect))))))))"

text \<open>
  Lines 91 to 131. The two PDFs are given as the words of their pages and the sections as
  the parsed JSON value; any exception becomes \<^verbatim>\<open>HTTPException(status_code=500)\<close>.
\<close>

definition process_pdfs ::
  "(string \<Rightarrow> (string \<Rightarrow> bool) option) \<Rightarrow> (real \<Rightarrow> real \<Rightarrow> real) \<Rightarrow> (real \<Rightarrow> real \<Rightarrow> real)
     \<Rightarrow> word list list \<Rightarrow> word list list \<Rightarrow> json \<Rightarrow> exn + (string \<rightharpoonup> string)" where
  "process_pdfs re_other fsub fadd pdf1 pdf2 sections_data =
     (case bindE (process_pdf fsub fadd pdf1) (\<lambda>pdf1_tables.
           bindE (process_pdf fsub fadd pdf2) (\<lambda>pdf2_tables.
           bindE (dict_items sections_data) (\<lambda>items.
           sections_loop re_other pdf1_tables pdf2_tables items Map.empty))) of
        Inl e \<Rightarrow> Inl (HTTPException 500)
      | Inr results \<Rightarrow> Inr results)"

section \<open>Sample pages\<close>

text \<open>
  Two pages used to evaluate the extractor, with integer coordinates. \<open>sample_page\<close> has
  the header words POL and OPR, one data row whose OPR column holds two words, a totals row
  and a row with no OPR word. \<open>overlap_page\<close> has three words under OPR whose tops are
  4 units apart.
\<close>

definition sample_page :: "word list" where
  "sample_page =
     [\<lparr>word_text = ''POL'', word_x0 = 50, word_x1 = 70, word_top = 10\<rparr>,
      \<lparr>word_text = ''OPR'', word_x0 = 100, word_x1 = 120, word_top = 10\<rparr>,
      \<lparr>word_text = ''NYC'', word_x0 = 50, word_x1 = 68, word_top = 50\<rparr>,
      \<lparr>word_text = ''AB'', word_x0 = 100, word_x1 = 110, word_top = 50\<rparr>,
      \<lparr>word_text = ''CD'', word_x0 = 112, word_x1 = 122, word_top = 50\<rparr>,
      \<lparr>word_text = ''Total'', word_x0 = 50, word_x1 = 75, word_top = 70\<rparr>,
      \<lparr>word_text = ''9'', word_x0 = 100, word_x1 = 105, word_top = 70\<rparr>,
      \<lparr>word_text = ''LAX'', word_x0 = 50, word_x1 = 68, word_top = 90\<rparr>]"

definition overlap_page :: "word list" where
  "overlap_page =
     [\<lparr>word_text = ''OPR'', word_x0 = 100, word_x1 = 120, word_top = 10\<rparr>,
      \<lparr>word_text = ''A'', word_x0 = 100, word_x1 = 106, word_top = 100\<rparr>,
      \<lparr>word_text = ''B'', word_x0 = 100, word_x1 = 106, word_top = 104\<rparr>,
      \<lparr>word_text = ''C'', word_x0 = 100, word_x1 = 106, word_top = 108\<rparr>]"

section \<open>Basic facts\<close>

lemma length_place_word: "length (place_word cols row_data w) = length row_data"
  by (simp add: place_word_def split: option.splits)

lemma length_add_word: "length (add_word fsub cols y row_data w) = length row_data"
  by (simp add: add_word_def length_place_word)

lemma length_foldl_add_word: "length (foldl (add_word fsub cols y) row_data ws) = length row_data"
  by (induction ws arbitrary: row_data) (simp_all add: length_add_word)

lemma length_build_row: "length (build_row fsub fadd words y) = length (column_names fsub fadd words)"
  by (simp add: build_row_def length_foldl_add_word)

lemma header_positions_Nil:
  "(header_positions fsub fadd words = []) = (\<forall>w \<in> set words. word_text w \<notin> set TARGET_HEADERS)"
proof -
  have "(header_positions fsub fadd words = []) = (length (header_positions fsub fadd words) = 0)"
    by simp
  also have "\<dots> = (filter (\<lambda>w. word_text w \<in> set TARGET_HEADERS) words = [])"
    by (simp add: header_positions_def)
  also have "\<dots> = (\<forall>w \<in> set words. word_text w \<notin> set TARGET_HEADERS)"
    by (simp add: filter_empty_conv)
  finally show ?thesis .
qed

lemma process_page_no_header:
  "\<forall>w \<in> set words. word_text w \<notin> set TARGET_HEADERS \<Longrightarrow> process_page fsub fadd words = Inr None"
  using header_positions_Nil [of fsub fadd words] by (simp add: process_page_def)

lemma extract_pages_no_header:
  "\<forall>words \<in> set pages. \<forall>w \<in> set words. word_text w \<notin> set TARGET_HEADERS \<Longrightarrow>
   extract_pages fsub fadd pages acc = Inr acc"
  by (induction pages arbitrary: acc) (simp_all add: process_page_no_header)

section \<open>Strings, rows and the page's table: auxiliary facts\<close>

lemma py_startswith_iff: "py_startswith s p = (\<exists>ss. s = p @ ss)"
  by (induction s p rule: py_startswith.induct) auto

lemma py_in_iff: "py_in p s = (\<exists>ps ss. s = ps @ p @ ss)"
proof (induction s)
  case Nil
  then show ?case by (simp add: py_startswith_iff)
next
  case (Cons c cs)
  show ?case
  proof
    assume "py_in p (c # cs)"
    then consider "py_startswith (c # cs) p" | "py_in p cs" by auto
    then show "\<exists>ps ss. c # cs = ps @ p @ ss"
    proof cases
      case 1
      then obtain ss where "c # cs = p @ ss" by (auto simp: py_startswith_iff)
      then have "c # cs = [] @ p @ ss" by simp
      then show ?thesis by blast
    next
      case 2
      then obtain ps ss where "cs = ps @ p @ ss" using Cons.IH by auto
      then have "c # cs = (c # ps) @ p @ ss" by simp
      then show ?thesis by blast
    qed
  next
    assume "\<exists>ps ss. c # cs = ps @ p @ ss"
    then obtain ps ss where e: "c # cs = ps @ p @ ss" by auto
    show "py_in p (c # cs)"
    proof (cases ps)
      case Nil
      then have "py_startswith (c # cs) p" using e by (auto simp: py_startswith_iff)
      then show ?thesis by simp
    next
      case (Cons a ps')
      then have "cs = ps' @ p @ ss" using e by simp
      then have "py_in p cs" using Cons.IH by blast
      then show ?thesis by simp
    qed
  qed
qed

lemma py_strip_Nil: "(py_strip s = []) = (\<forall>c \<in> set s. py_isspace c)"
proof -
  have "(py_strip s = []) = (dropWhile py_isspace (rev (dropWhile py_isspace s)) = [])"
    by (simp add: py_strip_def)
  also have "\<dots> = (\<forall>c \<in> set (dropWhile py_isspace s). py_isspace c)"
    by (simp add: dropWhile_eq_Nil_conv)
  also have "\<dots> = (\<forall>c \<in> set s. py_isspace c)"
  proof
    assume a: "\<forall>c \<in> set (dropWhile py_isspace s). py_isspace c"
    have "dropWhile py_isspace s = []"
    proof (rule ccontr)
      assume "dropWhile py_isspace s \<noteq> []"
      then have "\<not> py_isspace (hd (dropWhile py_isspace s))" by (rule hd_dropWhile)
      moreover have "hd (dropWhile py_isspace s) \<in> set (dropWhile py_isspace s)"
        using \<open>dropWhile py_isspace s \<noteq> []\<close> by simp
      ultimately show False using a by blast
    qed
    then show "\<forall>c \<in> set s. py_isspace c" by (simp add: dropWhile_eq_Nil_conv)
  next
    assume "\<forall>c \<in> set s. py_isspace c"
    then show "\<forall>c \<in> set (dropWhile py_isspace s). py_isspace c"
      using set_dropWhileD by fastforce
  qed
  finally show ?thesis .
qed

lemma matched_column_bounds:
  "matched_column cols x i = Some j \<Longrightarrow> i \<le> j \<and> j < i + length cols"
  by (induction cols x i rule: matched_column.induct) (auto split: if_splits)

lemma add_word_nth:
  "j < length row_data \<Longrightarrow>
   add_word fsub cols y row_data w ! j =
     row_data ! j @ (if \<bar>fsub (word_top w) y\<bar> < 5 \<and> matched_column cols (word_x0 w) 0 = Some j
                     then py_strip (CHR '' '' # word_text w) else [])"
  by (auto simp: add_word_def place_word_def nth_list_update split: option.splits)

lemma foldl_add_word_nth:
  "j < length row_data \<Longrightarrow>
   foldl (add_word fsub cols y) row_data ws ! j =
     row_data ! j @
     concat (map (\<lambda>w. py_strip (CHR '' '' # word_text w))
       (filter (\<lambda>w. \<bar>fsub (word_top w) y\<bar> < 5 \<and> matched_column cols (word_x0 w) 0 = Some j) ws))"
proof (induction ws arbitrary: row_data)
  case Nil
  then show ?case by simp
next
  case (Cons w ws)
  have "j < length (add_word fsub cols y row_data w)"
    using Cons.prems by (simp add: length_add_word)
  then show ?case
    using Cons.IH [of "add_word fsub cols y row_data w"] Cons.prems
    by (simp add: add_word_nth)
qed

lemma build_row_nth:
  "j < length (column_names fsub fadd words) \<Longrightarrow>
   build_row fsub fadd words y ! j =
     concat (map (\<lambda>w. py_strip (CHR '' '' # word_text w))
       (filter (\<lambda>w. \<bar>fsub (word_top w) y\<bar> < 5 \<and>
                     matched_column (column_positions fsub fadd words) (word_x0 w) 0 = Some j) words))"
  by (simp add: build_row_def foldl_add_word_nth)

lemma filter_opr_subset: "filter_opr names rows = Inr rows' \<Longrightarrow> set rows' \<subseteq> set rows"
  by (auto simp: filter_opr_def split: if_splits)

lemma process_page_Some:
  assumes "process_page fsub fadd words = Inr (Some df)"
  shows "columns df = column_names fsub fadd words"
    and "filter_opr (column_names fsub fadd words)
           (drop_header_rows (column_names fsub fadd words) (drop_total (table_data fsub fadd words))) = Inr (data df)"
  using assms by (auto simp: process_page_def dropna_all_def split: if_splits sum.splits)

lemma process_page_rows:
  assumes "process_page fsub fadd words = Inr (Some df)" and "r \<in> set (data df)"
  shows "r \<in> set (drop_header_rows (column_names fsub fadd words) (drop_total (table_data fsub fadd words)))"
  using filter_opr_subset [OF process_page_Some(2) [OF assms(1)]] assms(2) by blast

lemma label_index_unique:
  "count_list names l = 1 \<Longrightarrow> j < length names \<Longrightarrow> names ! j = l \<Longrightarrow> label_index l names = j"
proof (induction names arbitrary: j)
  case Nil
  then show ?case by simp
next
  case (Cons h names)
  show ?case
  proof (cases "h = l")
    case True
    then have "count_list names l = 0" using Cons.prems(1) by simp
    then have "l \<notin> set names" by (simp add: count_list_0_iff)
    then have "j = 0" using Cons.prems(2,3) by (cases j) auto
    then show ?thesis using True by (simp add: label_index_def)
  next
    case False
    then obtain j' where j: "j = Suc j'" using Cons.prems(3) by (cases j) auto
    have "label_index l names = j'"
      using Cons.IH [of j'] Cons.prems False j by simp
    then show ?thesis using False j by (simp add: label_index_def)
  qed
qed

section \<open>Pages without header labels\<close>

text \<open>
  C5. A PDF in which no page has a word whose text is one of the 13 target header labels
  yields an empty sequence of tables.
\<close>

theorem no_headers_no_tables:
  assumes "\<forall>words \<in> set pages. \<forall>w \<in> set words. word_text w \<notin> set TARGET_HEADERS"
  shows "process_pdf fsub fadd pages = Inr []"
  by (simp add: process_pdf_def extract_pages_no_header [OF assms])

theorem no_headers_no_tables_witness:
  "process_pdf (-) (+)
     [[\<lparr>word_text = ''Invoice'', word_x0 = 72, word_x1 = 110, word_top = 40\<rparr>,
       \<lparr>word_text = ''opr'', word_x0 = 72, word_x1 = 90, word_top = 60\<rparr>],
      []] = Inr []"
  using no_headers_no_tables
    [where fsub = "(-)" and fadd = "(+)" and pages = "[[\<lparr>word_text = ''Invoice'', word_x0 = 72, word_x1 = 110, word_top = 40\<rparr>,
           \<lparr>word_text = ''opr'', word_x0 = 72, word_x1 = 90, word_top = 60\<rparr>],
          []]"]
  by (simp add: TARGET_HEADERS_def)

section \<open>Pages with integer coordinates\<close>

text \<open>
  On a page whose coordinates are integers of magnitude up to \<open>2 ^ 52\<close>, operations that
  are exact on such integers give what the exact operations give.
\<close>

lemma exact_real_ops: "exact_on_small_ints (-) (+)"
  by (simp add: exact_on_small_ints_def)

lemma exact_fsub:
  "exact_on_small_ints fsub fadd \<Longrightarrow> small_int a \<Longrightarrow> small_int b \<Longrightarrow> fsub a b = a - b"
  by (simp add: exact_on_small_ints_def)

lemma exact_fadd:
  "exact_on_small_ints fsub fadd \<Longrightarrow> small_int a \<Longrightarrow> small_int b \<Longrightarrow> fadd a b = a + b"
  by (simp add: exact_on_small_ints_def)

lemma small_int_numeral: "numeral k \<le> (2::real) ^ 52 \<Longrightarrow> small_int (numeral k)"
  by (simp add: small_int_def)

lemma header_positions_exact:
  assumes "exact_on_small_ints fsub fadd" and "small_page words"
  shows "header_positions fsub fadd words = header_positions (-) (+) words"
proof -
  have "map (\<lambda>w. (word_text w, fsub (word_x0 w) 5, fadd (word_x1 w) 5))
          (filter (\<lambda>w. word_text w \<in> set TARGET_HEADERS) words)
      = map (\<lambda>w. (word_text w, word_x0 w - 5, word_x1 w + 5))
          (filter (\<lambda>w. word_text w \<in> set TARGET_HEADERS) words)"
  proof (rule map_cong [OF refl])
    fix w
    assume "w \<in> set (filter (\<lambda>w. word_text w \<in> set TARGET_HEADERS) words)"
    then have "w \<in> set words"
      by simp
    then have "small_int (word_x0 w)" and "small_int (word_x1 w)"
      using assms(2) by (simp_all add: small_page_def)
    then show "(word_text w, fsub (word_x0 w) 5, fadd (word_x1 w) 5)
        = (word_text w, word_x0 w - 5, word_x1 w + 5)"
      by (simp add: exact_fsub [OF assms(1)] exact_fadd [OF assms(1)] small_int_numeral)
  qed
  then show ?thesis
    by (simp only: header_positions_def)
qed

lemma column_positions_exact:
  "exact_on_small_ints fsub fadd \<Longrightarrow> small_page words \<Longrightarrow>
   column_positions fsub fadd words = column_positions (-) (+) words"
  by (simp only: column_positions_def header_positions_exact)

lemma column_names_exact:
  "exact_on_small_ints fsub fadd \<Longrightarrow> small_page words \<Longrightarrow>
   column_names fsub fadd words = column_names (-) (+) words"
  by (simp only: column_names_def header_positions_exact)

lemma build_row_exact:
  assumes "exact_on_small_ints fsub fadd" and "small_page words" and "small_int y"
  shows "build_row fsub fadd words y = build_row (-) (+) words y"
proof -
  have "foldl (add_word fsub cols y) init words = foldl (add_word (-) cols y) init words"
    for cols init
  proof (rule foldl_cong [OF refl refl])
    fix r w
    assume "w \<in> set words"
    then have "small_int (word_top w)"
      using assms(2) by (simp add: small_page_def)
    then show "add_word fsub cols y r w = add_word (-) cols y r w"
      by (simp add: add_word_def exact_fsub [OF assms(1)] assms(3))
  qed
  then show ?thesis
    by (simp only: build_row_def column_positions_exact [OF assms(1,2)]
        column_names_exact [OF assms(1,2)])
qed

lemma row_positions_small:
  "small_page words \<Longrightarrow> y \<in> set (row_positions words) \<Longrightarrow> small_int y"
  by (auto simp: row_positions_def small_page_def)

lemma table_data_exact:
  assumes "exact_on_small_ints fsub fadd" and "small_page words"
  shows "table_data fsub fadd words = table_data (-) (+) words"
proof -
  have "map (build_row fsub fadd words) (row_positions words)
      = map (build_row (-) (+) words) (row_positions words)"
    by (rule map_cong [OF refl])
      (simp add: build_row_exact [OF assms] row_positions_small [OF assms(2)])
  then show ?thesis
    by (simp only: table_data_def column_names_exact [OF assms])
qed

lemma process_page_exact:
  assumes "exact_on_small_ints fsub fadd" and "small_page words"
  shows "process_page fsub fadd words = process_page (-) (+) words"
  by (simp only: process_page_def header_positions_exact [OF assms] table_data_exact [OF assms]
      column_names_exact [OF assms])

section \<open>The sample pages, evaluated\<close>

lemma small_sample_page: "small_page sample_page"
  by (simp add: small_page_def sample_page_def small_int_def)

lemma small_overlap_page: "small_page overlap_page"
  by (simp add: small_page_def overlap_page_def small_int_def)

lemma process_sample_page:
  assumes "exact_on_small_ints fsub fadd"
  shows "process_page fsub fadd sample_page =
     Inr (Some \<lparr>columns = [''POL'', ''OPR''], data = [[''NYC'', ''ABCD'']]\<rparr>)"
proof -
  have "process_page (-) (+) sample_page =
     Inr (Some \<lparr>columns = [''POL'', ''OPR''], data = [[''NYC'', ''ABCD'']]\<rparr>)"
    by code_simp
  then show ?thesis
    by (simp only: process_page_exact [OF assms small_sample_page])
qed

lemma table_data_sample_page:
  assumes "exact_on_small_ints fsub fadd"
  shows "table_data fsub fadd sample_page =
     [[''POL'', ''OPR''], [''NYC'', ''ABCD''], [''Total'', ''9''], [''LAX'', []]]"
proof -
  have "table_data (-) (+) sample_page =
     [[''POL'', ''OPR''], [''NYC'', ''ABCD''], [''Total'', ''9''], [''LAX'', []]]"
    by code_simp
  then show ?thesis
    by (simp only: table_data_exact [OF assms small_sample_page])
qed

lemma column_names_sample_page:
  assumes "exact_on_small_ints fsub fadd"
  shows "column_names fsub fadd sample_page = [''POL'', ''OPR'']"
proof -
  have "column_names (-) (+) sample_page = [''POL'', ''OPR'']"
    by code_simp
  then show ?thesis
    by (simp only: column_names_exact [OF assms small_sample_page])
qed

lemma build_row_sample_page:
  assumes "exact_on_small_ints fsub fadd"
  shows "build_row fsub fadd sample_page 50 = [''NYC'', ''ABCD'']"
proof -
  have "build_row (-) (+) sample_page 50 = [''NYC'', ''ABCD'']"
    by code_simp
  moreover have "small_int 50"
    by (simp add: small_int_def)
  ultimately show ?thesis
    by (simp only: build_row_exact [OF assms small_sample_page])
qed

lemma process_overlap_page:
  assumes "exact_on_small_ints fsub fadd"
  shows "process_page fsub fadd overlap_page =
     Inr (Some \<lparr>columns = [''OPR''], data = [[''AB''], [''ABC''], [''BC'']]\<rparr>)"
proof -
  have "process_page (-) (+) overlap_page =
     Inr (Some \<lparr>columns = [''OPR''], data = [[''AB''], [''ABC''], [''BC'']]\<rparr>)"
    by code_simp
  then show ?thesis
    by (simp only: process_page_exact [OF assms small_overlap_page])
qed

lemma row_positions_overlap_page: "row_positions overlap_page = [10, 100, 104, 108]"
  by code_simp

lemma build_row_overlap_page:
  assumes "exact_on_small_ints fsub fadd"
  shows "build_row fsub fadd overlap_page 100 = [''AB'']"
    and "build_row fsub fadd overlap_page 108 = [''BC'']"
proof -
  have "build_row (-) (+) overlap_page 100 = [''AB'']"
    by code_simp
  moreover have "small_int 100"
    by (simp add: small_int_def)
  ultimately show "build_row fsub fadd overlap_page 100 = [''AB'']"
    by (simp only: build_row_exact [OF assms small_overlap_page])
  have "build_row (-) (+) overlap_page 108 = [''BC'']"
    by code_simp
  moreover have "small_int 108"
    by (simp add: small_int_def)
  ultimately show "build_row fsub fadd overlap_page 108 = [''BC'']"
    by (simp only: build_row_exact [OF assms small_overlap_page])
qed

lemma matched_column_overlap_page:
  assumes "exact_on_small_ints fsub fadd"
  shows "matched_column (column_positions fsub fadd overlap_page) 100 0 = Some 0"
proof -
  have "matched_column (column_positions (-) (+) overlap_page) 100 0 = Some 0"
    by code_simp
  then show ?thesis
    by (simp only: column_positions_exact [OF assms small_overlap_page])
qed

section \<open>Rows of the page's table\<close>

text \<open>
  C3. Every row retained in a page's table has as many cells as header labels were detected
  on the page, which is also the number of the table's columns; and the row is one of the
  rows built for the page's anchors, as it was built (neither truncated nor padded).
\<close>

theorem retained_row_width:
  assumes "process_page fsub fadd words = Inr (Some df)" and "r \<in> set (data df)"
  shows "length r = length (filter (\<lambda>w. word_text w \<in> set TARGET_HEADERS) words)
         \<and> length r = length (columns df)
         \<and> (\<exists>y \<in> set (row_positions words). r = build_row fsub fadd words y)"
proof -
  have "r \<in> set (table_data fsub fadd words)"
    using process_page_rows [OF assms] by (simp add: drop_header_rows_def drop_total_def)
  then obtain y where y: "y \<in> set (row_positions words)" "r = build_row fsub fadd words y"
    by (auto simp: table_data_def)
  have "length r = length (column_names fsub fadd words)"
    using y(2) by (simp add: length_build_row)
  moreover have "length (column_names fsub fadd words)
      = length (filter (\<lambda>w. word_text w \<in> set TARGET_HEADERS) words)"
    by (simp add: column_names_def header_positions_def)
  moreover have "columns df = column_names fsub fadd words"
    using assms(1) by (rule process_page_Some(1))
  ultimately show ?thesis using y by auto
qed

text \<open>
  On \<open>sample_page\<close>, with exact arithmetic: the one retained row has two cells, for two
  header words.
\<close>

theorem retained_row_width_witness:
  "process_page (-) (+) sample_page =
     Inr (Some \<lparr>columns = [''POL'', ''OPR''], data = [[''NYC'', ''ABCD'']]\<rparr>)
   \<and> length [''NYC'', ''ABCD'']
       = length (filter (\<lambda>w. word_text w \<in> set TARGET_HEADERS) sample_page)
   \<and> [''NYC'', ''ABCD''] \<in> set (map (build_row (-) (+) sample_page) (row_positions sample_page))"
proof -
  let ?df = "\<lparr>columns = [''POL'', ''OPR''], data = [[''NYC'', ''ABCD'']]\<rparr>"
  have h: "process_page (-) (+) sample_page = Inr (Some ?df)"
    by (rule process_sample_page [OF exact_real_ops])
  have m: "[''NYC'', ''ABCD''] \<in> set (data ?df)"
    by simp
  show ?thesis
    using retained_row_width [OF h m] h by auto
qed

text \<open>
  C6. A row in which some cell contains "total", compared without regard to case, is not in
  the page's table: \<open>u\<close> is the occurrence, a substring of the cell \<open>c\<close> that lower-cases
  to "total".
\<close>

theorem total_rows_excluded:
  assumes "process_page fsub fadd words = Inr (Some df)"
    and "c \<in> set r" and "c = ps @ u @ ss" and "map py_lower u = ''total''"
  shows "r \<notin> set (data df)"
proof
  assume "r \<in> set (data df)"
  then have "r \<in> set (drop_total (table_data fsub fadd words))"
    using process_page_rows [OF assms(1)] by (simp add: drop_header_rows_def)
  then have "\<not> contains_nocase ''total'' c"
    using assms(2) by (auto simp: drop_total_def)
  moreover have "map py_lower c = map py_lower ps @ ''total'' @ map py_lower ss"
    using assms(3,4) by simp
  then have "contains_nocase ''total'' c"
    unfolding contains_nocase_def py_in_iff by (auto simp: py_lower_def)
  ultimately show False by simp
qed

text \<open>On \<open>sample_page\<close>: the candidate row with the cell "Total" is left out.\<close>

theorem total_rows_excluded_witness:
  "process_page (-) (+) sample_page =
     Inr (Some \<lparr>columns = [''POL'', ''OPR''], data = [[''NYC'', ''ABCD'']]\<rparr>)
   \<and> [''Total'', ''9''] \<in> set (table_data (-) (+) sample_page)
   \<and> map py_lower ''Total'' = ''total''
   \<and> [''Total'', ''9'']
       \<notin> set (data \<lparr>columns = [''POL'', ''OPR''], data = [[''NYC'', ''ABCD'']]\<rparr>)"
proof -
  let ?df = "\<lparr>columns = [''POL'', ''OPR''], data = [[''NYC'', ''ABCD'']]\<rparr>"
  have h: "process_page (-) (+) sample_page = Inr (Some ?df)"
    by (rule process_sample_page [OF exact_real_ops])
  have c: "''Total'' \<in> set [''Total'', ''9'']"
    by simp
  have e: "''Total'' = [] @ ''Total'' @ []"
    by simp
  have l: "map py_lower ''Total'' = ''total''"
    by code_simp
  have t: "[''Total'', ''9''] \<in> set (table_data (-) (+) sample_page)"
    by (simp add: table_data_sample_page [OF exact_real_ops])
  from total_rows_excluded [OF h c e l] h t l show ?thesis
    by (intro conjI)
qed

text \<open>
  C7. A row in which every cell equals the header label of its column is not in the page's
  table.
\<close>

theorem header_rows_excluded:
  assumes "process_page fsub fadd words = Inr (Some df)"
    and "length r = length (column_names fsub fadd words)"
    and "\<forall>j < length r. r ! j = column_names fsub fadd words ! j"
  shows "r \<notin> set (data df)"
proof
  assume "r \<in> set (data df)"
  then have "r \<in> set (drop_header_rows (column_names fsub fadd words) (drop_total (table_data fsub fadd words)))"
    using process_page_rows [OF assms(1)] by simp
  then obtain c h where ch: "(c, h) \<in> set (zip r (column_names fsub fadd words))" "c \<noteq> h"
    by (auto simp: drop_header_rows_def)
  have "r = column_names fsub fadd words"
    using assms(2,3) by (simp add: nth_equalityI)
  then show False using ch by (auto simp: zip_same)
qed

text \<open>On \<open>sample_page\<close>: the candidate row built from the header words is left out.\<close>

theorem header_rows_excluded_witness:
  "process_page (-) (+) sample_page =
     Inr (Some \<lparr>columns = [''POL'', ''OPR''], data = [[''NYC'', ''ABCD'']]\<rparr>)
   \<and> column_names (-) (+) sample_page = [''POL'', ''OPR'']
   \<and> [''POL'', ''OPR''] \<in> set (table_data (-) (+) sample_page)
   \<and> [''POL'', ''OPR'']
       \<notin> set (data \<lparr>columns = [''POL'', ''OPR''], data = [[''NYC'', ''ABCD'']]\<rparr>)"
proof -
  let ?df = "\<lparr>columns = [''POL'', ''OPR''], data = [[''NYC'', ''ABCD'']]\<rparr>"
  have h: "process_page (-) (+) sample_page = Inr (Some ?df)"
    by (rule process_sample_page [OF exact_real_ops])
  have n: "column_names (-) (+) sample_page = [''POL'', ''OPR'']"
    by (rule column_names_sample_page [OF exact_real_ops])
  have len: "length [''POL'', ''OPR''] = length (column_names (-) (+) sample_page)"
    by (simp add: n)
  have eq: "\<forall>j < length [''POL'', ''OPR''].
      [''POL'', ''OPR''] ! j = column_names (-) (+) sample_page ! j"
    by (simp add: n)
  have t: "[''POL'', ''OPR''] \<in> set (table_data (-) (+) sample_page)"
    by (simp add: table_data_sample_page [OF exact_real_ops])
  from header_rows_excluded [OF h len eq] h n t show ?thesis
    by (intro conjI)
qed

text \<open>
  C8. On a page with a detected column OPR, a row whose OPR cell is empty or holds only
  whitespace is not in the page's table. (With two columns labelled OPR the page yields no
  table at all: the extraction raises.)
\<close>

theorem blank_opr_rows_excluded:
  assumes "process_page fsub fadd words = Inr (Some df)"
    and "j < length (column_names fsub fadd words)" and "column_names fsub fadd words ! j = ''OPR''"
    and "\<forall>c \<in> set (r ! j). py_isspace c"
  shows "r \<notin> set (data df)"
proof
  assume r: "r \<in> set (data df)"
  let ?names = "column_names fsub fadd words"
  let ?rows = "drop_header_rows ?names (drop_total (table_data fsub fadd words))"
  have f: "filter_opr ?names ?rows = Inr (data df)"
    using assms(1) by (rule process_page_Some(2))
  have mem: "''OPR'' \<in> set ?names"
    using assms(2,3) nth_mem by fastforce
  have one: "count_list ?names ''OPR'' = 1"
    using f mem by (auto simp: filter_opr_def split: if_splits)
  have "data df = filter (\<lambda>r. py_strip (r ! label_index ''OPR'' ?names) \<noteq> []) ?rows"
    using f mem one by (simp add: filter_opr_def)
  then have "py_strip (r ! label_index ''OPR'' ?names) \<noteq> []"
    using r by simp
  moreover have "label_index ''OPR'' ?names = j"
    using one assms(2,3) by (rule label_index_unique)
  ultimately show False using assms(4) by (simp add: py_strip_Nil)
qed

text \<open>On \<open>sample_page\<close>: the candidate row with an empty OPR cell is left out.\<close>

theorem blank_opr_rows_excluded_witness:
  "process_page (-) (+) sample_page =
     Inr (Some \<lparr>columns = [''POL'', ''OPR''], data = [[''NYC'', ''ABCD'']]\<rparr>)
   \<and> column_names (-) (+) sample_page ! 1 = ''OPR''
   \<and> [''LAX'', []] \<in> set (table_data (-) (+) sample_page)
   \<and> [''LAX'', []]
       \<notin> set (data \<lparr>columns = [''POL'', ''OPR''], data = [[''NYC'', ''ABCD'']]\<rparr>)"
proof -
  let ?df = "\<lparr>columns = [''POL'', ''OPR''], data = [[''NYC'', ''ABCD'']]\<rparr>"
  have h: "process_page (-) (+) sample_page = Inr (Some ?df)"
    by (rule process_sample_page [OF exact_real_ops])
  have j: "1 < length (column_names (-) (+) sample_page)"
    by (simp add: column_names_sample_page [OF exact_real_ops])
  have n: "column_names (-) (+) sample_page ! 1 = ''OPR''"
    by (simp add: column_names_sample_page [OF exact_real_ops])
  have b: "\<forall>c \<in> set ([''LAX'', []] ! 1). py_isspace c"
    by simp
  have t: "[''LAX'', []] \<in> set (table_data (-) (+) sample_page)"
    by (simp add: table_data_sample_page [OF exact_real_ops])
  from blank_opr_rows_excluded [OF h j n b] h n t show ?thesis
    by (intro conjI)
qed

section \<open>Several words in one cell\<close>

text \<open>
  C2. The words AB and CD of \<open>sample_page\<close> fall into the OPR column of the row at top 50.
  Line 66 strips the space-prefixed text of each word before appending it, so the words are
  joined with no separator: the cell is "ABCD", not "AB CD". The coordinates are integers,
  so this is what any arithmetic that is exact on them gives.
\<close>

theorem words_joined_without_separator:
  assumes "exact_on_small_ints fsub fadd"
  shows "build_row fsub fadd sample_page 50 = [''NYC'', ''ABCD'']
   \<and> process_page fsub fadd sample_page =
       Inr (Some \<lparr>columns = [''POL'', ''OPR''], data = [[''NYC'', ''ABCD'']]\<rparr>)"
  using build_row_sample_page [OF assms] process_sample_page [OF assms]
  by (intro conjI)

text \<open>With the exact operations.\<close>

theorem words_joined_without_separator_witness:
  "exact_on_small_ints (-) (+)
   \<and> build_row (-) (+) sample_page 50 = [''NYC'', ''ABCD'']
   \<and> process_page (-) (+) sample_page =
       Inr (Some \<lparr>columns = [''POL'', ''OPR''], data = [[''NYC'', ''ABCD'']]\<rparr>)"
proof -
  note t = words_joined_without_separator [OF exact_real_ops]
  from exact_real_ops t [THEN conjunct1] t [THEN conjunct2] show ?thesis
    by (intro conjI)
qed

section \<open>Anchors and overlapping rows\<close>

lemma concat_map_split: "x \<in> set xs \<Longrightarrow> \<exists>ps ss. concat (map f xs) = ps @ f x @ ss"
proof -
  assume "x \<in> set xs"
  then obtain ys zs where "xs = ys @ x # zs"
    by (auto dest: split_list)
  then have "concat (map f xs) = concat (map f ys) @ f x @ concat (map f zs)"
    by simp
  then show ?thesis by blast
qed

lemma word_in_row:
  assumes "w \<in> set words" and "\<bar>fsub (word_top w) y\<bar> < 5"
    and "matched_column (column_positions fsub fadd words) (word_x0 w) 0 = Some j"
  shows "\<exists>ps ss. build_row fsub fadd words y ! j = ps @ py_strip (CHR '' '' # word_text w) @ ss"
proof -
  have "j < length (column_positions fsub fadd words)"
    using matched_column_bounds [OF assms(3)] by simp
  then have j: "j < length (column_names fsub fadd words)"
    by (simp add: column_positions_def column_names_def)
  have "w \<in> set (filter (\<lambda>w. \<bar>fsub (word_top w) y\<bar> < 5 \<and>
                     matched_column (column_positions fsub fadd words) (word_x0 w) 0 = Some j) words)"
    using assms by simp
  from concat_map_split [OF this, of "\<lambda>w. py_strip (CHR '' '' # word_text w)"]
  show ?thesis by (simp only: build_row_nth [OF j])
qed

lemma foldl_add_word_filter:
  "foldl (add_word fsub cols y) row_data ws =
     foldl (place_word cols) row_data (filter (\<lambda>w. \<bar>fsub (word_top w) y\<bar> < 5) ws)"
  by (induction ws arbitrary: row_data) (simp_all add: add_word_def)

lemma build_row_collected:
  "build_row fsub fadd words y =
     foldl (place_word (column_positions fsub fadd words))
       (replicate (length (column_names fsub fadd words)) [])
       (filter (\<lambda>w. \<bar>fsub (word_top w) y\<bar> < 5) words)"
  by (simp only: build_row_def foldl_add_word_filter)

lemma table_data_anchors:
  "table_data fsub fadd words =
     filter (\<lambda>r. \<exists>c \<in> set r. c \<noteq> []) (map (build_row fsub fadd words) (row_positions words))"
  by (simp add: table_data_def filter_map o_def length_build_row)

text \<open>
  C10. The row anchors of a page are the tops of its words, each distinct top once, in
  ascending order, and the candidate rows are the rows of the anchors that have a non-empty
  cell. The row of an anchor \<open>y\<close> is made of all the words whose top is less than 5 from
  \<open>y\<close> (the difference as line 58 computes it), and of no other word: they are put into
  their columns in the order of the page. So a word whose left edge falls into column \<open>j\<close>
  is in cell \<open>j\<close> of the row of every such anchor. And there is a page on which one word is
  less than 5 from two different anchors whose rows are both retained in the page's table,
  and differ.
\<close>

theorem overlapping_rows:
  "distinct (row_positions words) \<and> sorted (row_positions words)
   \<and> set (row_positions words) = word_top ` set words
   \<and> table_data fsub fadd words =
       filter (\<lambda>r. \<exists>c \<in> set r. c \<noteq> []) (map (build_row fsub fadd words) (row_positions words))
   \<and> (\<forall>y. build_row fsub fadd words y =
        foldl (place_word (column_positions fsub fadd words))
          (replicate (length (column_names fsub fadd words)) [])
          (filter (\<lambda>w. \<bar>fsub (word_top w) y\<bar> < 5) words))
   \<and> (\<forall>w \<in> set words. \<forall>y \<in> set (row_positions words). \<forall>j.
        \<bar>fsub (word_top w) y\<bar> < 5 \<longrightarrow>
        matched_column (column_positions fsub fadd words) (word_x0 w) 0 = Some j \<longrightarrow>
        (\<exists>ps ss. build_row fsub fadd words y ! j = ps @ py_strip (CHR '' '' # word_text w) @ ss))
   \<and> (exact_on_small_ints fsub fadd \<longrightarrow>
       (\<exists>page w y1 y2 df.
          w \<in> set page \<and> y1 \<in> set (row_positions page) \<and> y2 \<in> set (row_positions page)
          \<and> y1 \<noteq> y2 \<and> \<bar>fsub (word_top w) y1\<bar> < 5 \<and> \<bar>fsub (word_top w) y2\<bar> < 5
          \<and> matched_column (column_positions fsub fadd page) (word_x0 w) 0 = Some 0
          \<and> process_page fsub fadd page = Inr (Some df)
          \<and> build_row fsub fadd page y1 \<in> set (data df)
          \<and> build_row fsub fadd page y2 \<in> set (data df)
          \<and> build_row fsub fadd page y1 \<noteq> build_row fsub fadd page y2))"
proof (intro conjI impI)
  show "distinct (row_positions words)"
    by (simp add: row_positions_def)
next
  show "sorted (row_positions words)"
    by (simp add: row_positions_def)
next
  show "set (row_positions words) = word_top ` set words"
    by (simp add: row_positions_def)
next
  show "table_data fsub fadd words =
       filter (\<lambda>r. \<exists>c \<in> set r. c \<noteq> []) (map (build_row fsub fadd words) (row_positions words))"
    by (rule table_data_anchors)
next
  show "\<forall>y. build_row fsub fadd words y =
        foldl (place_word (column_positions fsub fadd words))
          (replicate (length (column_names fsub fadd words)) [])
          (filter (\<lambda>w. \<bar>fsub (word_top w) y\<bar> < 5) words)"
    by (intro allI) (rule build_row_collected)
next
  show "\<forall>w \<in> set words. \<forall>y \<in> set (row_positions words). \<forall>j.
        \<bar>fsub (word_top w) y\<bar> < 5 \<longrightarrow>
        matched_column (column_positions fsub fadd words) (word_x0 w) 0 = Some j \<longrightarrow>
        (\<exists>ps ss. build_row fsub fadd words y ! j = ps @ py_strip (CHR '' '' # word_text w) @ ss)"
    by (intro ballI allI impI) (rule word_in_row)
next
  assume e: "exact_on_small_ints fsub fadd"
  let ?w = "\<lparr>word_text = ''B'', word_x0 = 100, word_x1 = 106, word_top = 104\<rparr>"
  let ?df = "\<lparr>columns = [''OPR''], data = [[''AB''], [''ABC''], [''BC'']]\<rparr>"
  have s: "small_int 100" "small_int 104" "small_int 108"
    by (simp_all add: small_int_def)
  have w: "?w \<in> set overlap_page"
    by (simp add: overlap_page_def)
  have y1: "(100::real) \<in> set (row_positions overlap_page)"
    and y2: "(108::real) \<in> set (row_positions overlap_page)"
    by (simp_all add: row_positions_overlap_page)
  have ne: "(100::real) \<noteq> 108"
    by simp
  have n1: "\<bar>fsub (word_top ?w) 100\<bar> < 5" and n2: "\<bar>fsub (word_top ?w) 108\<bar> < 5"
    by (simp_all add: exact_fsub [OF e] s)
  have m: "matched_column (column_positions fsub fadd overlap_page) (word_x0 ?w) 0 = Some 0"
    by (simp add: matched_column_overlap_page [OF e])
  have p: "process_page fsub fadd overlap_page = Inr (Some ?df)"
    by (rule process_overlap_page [OF e])
  have r1: "build_row fsub fadd overlap_page 100 \<in> set (data ?df)"
    and r2: "build_row fsub fadd overlap_page 108 \<in> set (data ?df)"
    and d: "build_row fsub fadd overlap_page 100 \<noteq> build_row fsub fadd overlap_page 108"
    by (simp_all add: build_row_overlap_page [OF e])
  from w y1 y2 ne n1 n2 m p r1 r2 d
  have "?w \<in> set overlap_page \<and> 100 \<in> set (row_positions overlap_page)
        \<and> 108 \<in> set (row_positions overlap_page)
        \<and> (100::real) \<noteq> 108 \<and> \<bar>fsub (word_top ?w) 100\<bar> < 5 \<and> \<bar>fsub (word_top ?w) 108\<bar> < 5
        \<and> matched_column (column_positions fsub fadd overlap_page) (word_x0 ?w) 0 = Some 0
        \<and> process_page fsub fadd overlap_page = Inr (Some ?df)
        \<and> build_row fsub fadd overlap_page 100 \<in> set (data ?df)
        \<and> build_row fsub fadd overlap_page 108 \<in> set (data ?df)
        \<and> build_row fsub fadd overlap_page 100 \<noteq> build_row fsub fadd overlap_page 108"
    by (intro conjI)
  then show "\<exists>page w y1 y2 df.
          w \<in> set page \<and> y1 \<in> set (row_positions page) \<and> y2 \<in> set (row_positions page)
          \<and> y1 \<noteq> y2 \<and> \<bar>fsub (word_top w) y1\<bar> < 5 \<and> \<bar>fsub (word_top w) y2\<bar> < 5
          \<and> matched_column (column_positions fsub fadd page) (word_x0 w) 0 = Some 0
          \<and> process_page fsub fadd page = Inr (Some df)
          \<and> build_row fsub fadd page y1 \<in> set (data df)
          \<and> build_row fsub fadd page y2 \<in> set (data df)
          \<and> build_row fsub fadd page y1 \<noteq> build_row fsub fadd page y2"
    by (intro exI)
qed

text \<open>
  On \<open>overlap_page\<close>, with exact arithmetic: the anchors are the four tops, and the word B,
  at top 104, is in the rows of the anchors 100 and 108.
\<close>

theorem overlapping_rows_witness:
  "exact_on_small_ints (-) (+)
   \<and> \<lparr>word_text = ''B'', word_x0 = 100, word_x1 = 106, word_top = 104\<rparr> \<in> set overlap_page
   \<and> row_positions overlap_page = [10, 100, 104, 108]
   \<and> (\<exists>ps ss. build_row (-) (+) overlap_page 100 ! 0 = ps @ py_strip '' B'' @ ss)
   \<and> (\<exists>ps ss. build_row (-) (+) overlap_page 108 ! 0 = ps @ py_strip '' B'' @ ss)"
proof -
  let ?w = "\<lparr>word_text = ''B'', word_x0 = 100, word_x1 = 106, word_top = 104\<rparr>"
  have w: "?w \<in> set overlap_page"
    by (simp add: overlap_page_def)
  have y1: "(100::real) \<in> set (row_positions overlap_page)"
    and y2: "(108::real) \<in> set (row_positions overlap_page)"
    by (simp_all add: row_positions_overlap_page)
  have m: "matched_column (column_positions (-) (+) overlap_page) (word_x0 ?w) 0 = Some 0"
    by (simp add: matched_column_overlap_page [OF exact_real_ops])
  have n1: "\<bar>word_top ?w - 100\<bar> < 5" and n2: "\<bar>word_top ?w - 108\<bar> < 5"
    by simp_all
  note t = overlapping_rows [where words = overlap_page and fsub = "(-)" and fadd = "(+)"]
  note general = t [THEN conjunct2, THEN conjunct2, THEN conjunct2, THEN conjunct2,
    THEN conjunct2, THEN conjunct1, rule_format]
  have "\<exists>ps ss. build_row (-) (+) overlap_page 100 ! 0
      = ps @ py_strip (CHR '' '' # word_text ?w) @ ss"
    by (rule general [OF w y1 n1 m])
  then have a: "\<exists>ps ss. build_row (-) (+) overlap_page 100 ! 0 = ps @ py_strip '' B'' @ ss"
    by simp
  have "\<exists>ps ss. build_row (-) (+) overlap_page 108 ! 0
      = ps @ py_strip (CHR '' '' # word_text ?w) @ ss"
    by (rule general [OF w y2 n2 m])
  then have b: "\<exists>ps ss. build_row (-) (+) overlap_page 108 ! 0 = ps @ py_strip '' B'' @ ss"
    by simp
  from exact_real_ops w row_positions_overlap_page a b show ?thesis
    by (intro conjI)
qed

section \<open>Matching a section number\<close>

lemma re_match_here_literal:
  "\<forall>c \<in> set p. c \<noteq> CHR ''.'' \<Longrightarrow> re_match_here p s = py_startswith s p"
proof (induction p s rule: re_match_here.induct)
  case (1 s)
  then show ?case by simp
next
  case (2 p ps)
  then show ?case by simp
next
  case (3 p ps c cs)
  then have "p \<noteq> CHR ''.''" by simp
  moreover have "re_match_here ps cs = py_startswith cs ps" using 3 by simp
  ultimately show ?case by (simp only: re_match_here.simps py_startswith.simps if_False eq_commute [of c p])
qed

lemma re_search_literal:
  "\<forall>c \<in> set p. c \<noteq> CHR ''.'' \<Longrightarrow> re_search p s = py_in p s"
  by (induction s) (simp_all only: re_search.simps py_in.simps re_match_here_literal)


lemma re_compile_literal:
  assumes "\<forall>c \<in> set n. \<not> re_special c"
  shows "re_compile re_other n = Some (py_in n)"
proof -
  have "re_special CHR ''.''"
    by (simp add: re_special_def)
  then have nodot: "\<forall>c \<in> set n. c \<noteq> CHR ''.''"
    using assms by blast
  have "re_search n s = py_in n s" for s
    using nodot by (rule re_search_literal)
  then have "re_search n = py_in n"
    by (rule ext)
  moreover have "list_all (\<lambda>c. \<not> re_special c \<or> c = CHR ''.'') n"
    using assms by (simp add: list_all_iff)
  ultimately show ?thesis by (simp only: re_compile_def if_True)
qed

lemma cell_contains_py_in:
  "cell_contains (py_in n) cell = (\<exists>s ps ss. cell = Some s \<and> s = ps @ n @ ss)"
  by (cases cell) (simp_all add: py_in_iff)

lemma length_filter_id_map: "length (filter id (map f xs)) = length (filter f xs)"
  by (induction xs) simp_all

lemma str_contains_literal:
  assumes "\<forall>c \<in> set n. \<not> re_special c"
  shows "str_contains re_other (JStr n) series = Inr (map (cell_contains (py_in n)) series)"
  by (simp add: str_contains_def re_compile_literal [OF assms])

lemma opr_series_unique:
  assumes "count_list (frame_columns df) ''OPR'' = 1"
  shows "opr_series df =
      Inr (map (\<lambda>r. r ! label_index ''OPR'' (frame_columns df)) (frame_data df))"
proof -
  have "''OPR'' \<in> set (frame_columns df)"
    using assms count_list_0_iff [of "frame_columns df" "''OPR''"] by auto
  then show ?thesis using assms by (simp add: opr_series_def)
qed

text \<open>
  C1, as the code has it. The section number is compiled as a regular expression. When it
  has no special character of the regular expression syntax, the rows of a combined dataset
  counted as matches are exactly those whose OPR cell is a string (not null) that contains
  the number as a substring, anywhere and with the case as written.
\<close>

theorem opr_match_is_substring_for_literal_number:
  assumes "\<not> frame_empty df" and "count_list (frame_columns df) ''OPR'' = 1"
    and "\<forall>c \<in> set n. \<not> re_special c"
  shows "count_matches re_other (JStr n) df =
           Inr (length (filter
             (\<lambda>r. \<exists>s ps ss. r ! label_index ''OPR'' (frame_columns df) = Some s \<and> s = ps @ n @ ss)
             (frame_data df)))"
proof -
  let ?k = "label_index ''OPR'' (frame_columns df)"
  have "count_matches re_other (JStr n) df =
      Inr (length (filter id (map (cell_contains (py_in n)) (map (\<lambda>r. r ! ?k) (frame_data df)))))"
    using assms(1)
    by (simp add: count_matches_def opr_series_unique [OF assms(2)]
        str_contains_literal [OF assms(3)])
  also have "\<dots> = Inr (length (filter (\<lambda>r. cell_contains (py_in n) (r ! ?k)) (frame_data df)))"
    by (simp only: map_map length_filter_id_map comp_def)
  also have "\<dots> = Inr (length (filter
             (\<lambda>r. \<exists>s ps ss. r ! ?k = Some s \<and> s = ps @ n @ ss) (frame_data df)))"
    by (simp only: cell_contains_py_in)
  finally show ?thesis .
qed
text \<open>
  The number "SEC-10" matches the OPR cell "SEC-10-ABC"; a null cell and "SEC-11" do not
  match.
\<close>

theorem opr_match_is_substring_for_literal_number_witness:
  "count_matches Map.empty (JStr ''SEC-10'')
     \<lparr>frame_columns = [''POL'', ''OPR''],
      frame_data = [[Some ''NYC'', Some ''SEC-10-ABC''], [Some ''LAX'', None],
                    [None, Some ''SEC-11'']]\<rparr> = Inr 1"
proof -
  let ?df = "\<lparr>frame_columns = [''POL'', ''OPR''],
      frame_data = [[Some ''NYC'', Some ''SEC-10-ABC''], [Some ''LAX'', None],
                    [None, Some ''SEC-11'']]\<rparr>"
  have 1: "\<not> frame_empty ?df" by (simp add: frame_empty_def)
  have 2: "count_list (frame_columns ?df) ''OPR'' = 1" by simp
  have 3: "\<forall>c \<in> set ''SEC-10''. \<not> re_special c" by (simp add: re_special_def)
  have "''SEC-10-ABC'' = [] @ ''SEC-10'' @ ''-ABC''" by simp
  then have 4: "\<exists>ps ss. ''SEC-10-ABC'' = ps @ ''SEC-10'' @ ss" by blast
  have 5: "\<not> (\<exists>ps ss. ''SEC-11'' = ps @ ''SEC-10'' @ ss)"
    unfolding py_in_iff [symmetric] by simp
  show ?thesis
    using opr_match_is_substring_for_literal_number [OF 1 2 3, of Map.empty] 4 5
    by (simp add: label_index_def)
qed

text \<open>
  A number with a special character is not matched as a plain substring: "S.C" matches the
  OPR cell "SEC", which does not contain it.
\<close>

theorem regex_number_counterexample:
  "count_matches Map.empty (JStr ''S.C'')
     \<lparr>frame_columns = [''OPR''], frame_data = [[Some ''SEC'']]\<rparr> = Inr 1
   \<and> \<not> py_in ''S.C'' ''SEC''"
  by (simp add: count_matches_def frame_empty_def opr_series_def label_index_def
      str_contains_def re_compile_def re_special_def)

section \<open>Requests\<close>

lemma count_matches_empty_frame: "count_matches re_other n empty_frame = Inr 0"
  by (simp add: count_matches_def frame_empty_def empty_frame_def)

lemma subscript_present:
  "key \<in> fst ` set kvs \<Longrightarrow> \<exists>v. subscript (JObj kvs) key = Inr v"
  by (cases "map_of kvs key") (auto simp: map_of_eq_None_iff)

lemma subscript_absent:
  "key \<notin> fst ` set kvs \<Longrightarrow> subscript (JObj kvs) key = Inl KeyError"
  by (simp add: map_of_eq_None_iff [THEN iffD2])

lemma sections_loop_no_tables:
  assumes "\<forall>(s, d) \<in> set items.
             \<exists>kvs. d = JObj kvs \<and> ''number'' \<in> fst ` set kvs \<and> ''date'' \<in> fst ` set kvs"
  shows "sections_loop re_other [] [] items results =
           Inr (\<lambda>s. if s \<in> fst ` set items then Some (result_message 0 0 s) else results s)"
  using assms
proof (induction items arbitrary: results)
  case Nil
  then show ?case by simp
next
  case (Cons a items)
  obtain sect d where a: "a = (sect, d)" by (cases a)
  obtain kvs where d: "d = JObj kvs" "''number'' \<in> fst ` set kvs" "''date'' \<in> fst ` set kvs"
    using Cons.prems a by auto
  obtain n where n: "subscript d ''number'' = Inr n"
    using subscript_present [OF d(2)] d(1) by auto
  obtain dt where dt: "subscript d ''date'' = Inr dt"
    using subscript_present [OF d(3)] d(1) by auto
  have rest: "\<forall>(s, d) \<in> set items.
             \<exists>kvs. d = JObj kvs \<and> ''number'' \<in> fst ` set kvs \<and> ''date'' \<in> fst ` set kvs"
    using Cons.prems by simp
  have "sections_loop re_other [] [] (a # items) results =
        sections_loop re_other [] [] items (results(sect \<mapsto> result_message 0 0 sect))"
    by (simp add: a n dt combined_def count_matches_empty_frame)
  also have "\<dots> = Inr (\<lambda>s. if s \<in> fst ` set items then Some (result_message 0 0 s)
                            else (results(sect \<mapsto> result_message 0 0 sect)) s)"
    by (rule Cons.IH [OF rest])
  also have "(\<lambda>s. if s \<in> fst ` set items then Some (result_message 0 0 s)
                            else (results(sect \<mapsto> result_message 0 0 sect)) s)
          = (\<lambda>s. if s \<in> fst ` set (a # items) then Some (result_message 0 0 s) else results s)"
    by (rule ext) (simp add: a)
  finally show ?case .
qed

lemma format_nat_0: "format_nat 0 = ''0''"
  by code_simp

lemma result_message_0: "result_message 0 0 s = ''Found 0 matches in PDF1 and 0 matches in PDF2 for section '' @ s"
  by (simp add: result_message_def format_nat_0)

text \<open>
  C4. When the extraction yields no table for either PDF, the request succeeds, and the
  result of every section request (an object with the keys number and date) reports zero
  matches in both documents.
\<close>

theorem no_tables_zero_matches:
  assumes "process_pdf fsub fadd pdf1 = Inr []" and "process_pdf fsub fadd pdf2 = Inr []"
    and "\<forall>(s, d) \<in> set items.
           \<exists>kvs. d = JObj kvs \<and> ''number'' \<in> fst ` set kvs \<and> ''date'' \<in> fst ` set kvs"
  shows "\<exists>results. process_pdfs re_other fsub fadd pdf1 pdf2 (JObj items) = Inr results
           \<and> dom results = fst ` set items
           \<and> (\<forall>s \<in> fst ` set items.
                results s = Some (''Found 0 matches in PDF1 and 0 matches in PDF2 for section '' @ s))"
proof -
  let ?res = "\<lambda>s. if s \<in> fst ` set items then Some (result_message 0 0 s) else None"
  have "process_pdfs re_other fsub fadd pdf1 pdf2 (JObj items) = Inr ?res"
    using sections_loop_no_tables [OF assms(3), where re_other = re_other and results = Map.empty]
    by (simp add: process_pdfs_def assms(1,2))
  moreover have "dom ?res = fst ` set items"
    by (auto simp: dom_def)
  moreover have "\<forall>s \<in> fst ` set items.
      ?res s = Some (''Found 0 matches in PDF1 and 0 matches in PDF2 for section '' @ s)"
    by (simp add: result_message_0)
  ultimately show ?thesis by (intro exI [of _ ?res] conjI)
qed



text \<open>A PDF with no page and a PDF whose one page has no word.\<close>

theorem no_tables_zero_matches_witness:
  "\<exists>results.
     process_pdfs Map.empty (-) (+) [] [[]]
       (JObj [(''A'', JObj [(''number'', JStr ''SEC-10''), (''date'', JStr ''2024-01-01'')])])
       = Inr results
     \<and> results ''A'' = Some ''Found 0 matches in PDF1 and 0 matches in PDF2 for section A''"
proof -
  let ?items = "[(''A'', JObj [(''number'', JStr ''SEC-10''), (''date'', JStr ''2024-01-01'')])]"
  have p1: "process_pdf (-) (+) [] = Inr []"
    by (simp add: process_pdf_def)
  have p2: "process_pdf (-) (+) [[]] = Inr []"
    by (simp add: process_pdf_def process_page_def)
  have wf: "\<forall>(s, d) \<in> set ?items.
           \<exists>kvs. d = JObj kvs \<and> ''number'' \<in> fst ` set kvs \<and> ''date'' \<in> fst ` set kvs"
    by simp
  have m: "''A'' \<in> fst ` set ?items"
    by simp
  from no_tables_zero_matches [OF p1 p2 wf, where re_other = Map.empty]
  show ?thesis
  proof (elim exE conjE)
    fix results
    assume r: "process_pdfs Map.empty (-) (+) [] [[]] (JObj ?items) = Inr results"
      and a: "\<forall>s \<in> fst ` set ?items.
        results s = Some (''Found 0 matches in PDF1 and 0 matches in PDF2 for section '' @ s)"
    from a m have "results ''A''
        = Some (''Found 0 matches in PDF1 and 0 matches in PDF2 for section '' @ ''A'')"
      by (rule bspec)
    then have "results ''A''
        = Some ''Found 0 matches in PDF1 and 0 matches in PDF2 for section A''"
      by (simp only: append.simps)
    with r show ?thesis
      by (intro exI conjI)
  qed
qed

lemma bindE_fails: "(\<And>x. \<exists>e. f x = Inl e) \<Longrightarrow> \<exists>e. bindE m f = Inl e"
  by (cases m) auto

lemma sections_loop_missing_key:
  assumes "(s, JObj kvs) \<in> set items"
    and "''date'' \<notin> fst ` set kvs \<or> ''number'' \<notin> fst ` set kvs"
  shows "\<exists>e. sections_loop re_other t1 t2 items results = Inl e"
  using assms(1)
proof (induction items arbitrary: results)
  case Nil
  then show ?case by simp
next
  case (Cons a items)
  obtain sect d where a: "a = (sect, d)" by (cases a)
  show ?case
  proof (cases "a = (s, JObj kvs)")
    case True
    then have d: "d = JObj kvs" using a by simp
    show ?thesis
    proof (cases "''number'' \<in> fst ` set kvs")
      case False
      then show ?thesis by (simp add: a d subscript_absent del: subscript.simps)
    next
      case number: True
      then have "''date'' \<notin> fst ` set kvs" using assms(2) by blast
      moreover obtain n where "subscript (JObj kvs) ''number'' = Inr n"
        using subscript_present [OF number] by auto
      ultimately show ?thesis by (simp add: a d subscript_absent del: subscript.simps)
    qed
  next
    case False
    then have "(s, JObj kvs) \<in> set items" using Cons.prems by simp
    then have "\<exists>e. sections_loop re_other t1 t2 items r = Inl e" for r
      by (rule Cons.IH)
    then show ?thesis
      unfolding a sections_loop.simps by (intro bindE_fails)
  qed
qed

text \<open>
  C9. A request with a section entry that lacks the key date, or the key number, fails as a
  whole with status 500, whatever the PDFs and the other entries are.
\<close>

theorem missing_key_fails:
  assumes "(s, JObj kvs) \<in> set items"
    and "''date'' \<notin> fst ` set kvs \<or> ''number'' \<notin> fst ` set kvs"
  shows "process_pdfs re_other fsub fadd pdf1 pdf2 (JObj items) = Inl (HTTPException 500)"
proof -
  have "\<exists>e. sections_loop re_other t1 t2 items Map.empty = Inl e" for t1 t2
    using assms by (rule sections_loop_missing_key)
  then have "\<exists>e. bindE (process_pdf fsub fadd pdf1) (\<lambda>pdf1_tables.
           bindE (process_pdf fsub fadd pdf2) (\<lambda>pdf2_tables.
           sections_loop re_other pdf1_tables pdf2_tables items Map.empty)) = Inl e"
    by (intro bindE_fails) simp
  then show ?thesis by (auto simp: process_pdfs_def)
qed

text \<open>
  The first entry is complete and the second has no date; the first PDF yields a table.
\<close>

theorem missing_key_fails_witness:
  "process_pdfs Map.empty (-) (+) [sample_page] []
     (JObj [(''A'', JObj [(''number'', JStr ''AB''), (''date'', JStr ''2024-01-01'')]),
            (''B'', JObj [(''number'', JStr ''CD'')])])
     = Inl (HTTPException 500)"
proof -
  have m: "(''B'', JObj [(''number'', JStr ''CD'')])
      \<in> set [(''A'', JObj [(''number'', JStr ''AB''), (''date'', JStr ''2024-01-01'')]),
             (''B'', JObj [(''number'', JStr ''CD'')])]"
    by simp
  have k: "''date'' \<notin> fst ` set [(''number'', JStr ''CD'')]
      \<or> ''number'' \<notin> fst ` set [(''number'', JStr ''CD'')]"
    by simp
  show ?thesis
    by (rule missing_key_fails [OF m k])
qed

text \<open>The value under the key date does not enter the result.\<close>

lemma date_value_unused:
  "sections_loop re_other t1 t2 ((s, JObj [(''number'', n), (''date'', v)]) # rest) results =
   sections_loop re_other t1 t2 ((s, JObj [(''number'', n), (''date'', v')]) # rest) results"
  by simp

end
